theory Spec2Isabelle
  imports Complex_Main
begin

section \<open>Data model (src/models/document.py)\<close>

text \<open>
  A Python \<open>str\<close> is a sequence of Unicode code points; the marker lexicon and the
  transcripts are Chinese, so a string is modelled as the list of its code points
  (\<open>len\<close> is \<open>length\<close>, slicing is \<open>take\<close>/\<open>drop\<close>). Python floats are modelled as
  real numbers: the rounding of floating-point operations, infinities and NaN are not
  part of the model. \<open>py_error\<close> stands for the exceptions derived from \<open>Exception\<close>.
\<close>

type_synonym pystr = "int list"

definition ascii :: "string \<Rightarrow> pystr" where
  "ascii s = map (\<lambda>c. int (of_char c)) s"

datatype py_error = ZeroDivisionError | TypeError | Exception' pystr

datatype RelationType =
  CONTRAST | ADDITION | CAUSALITY | REFERENCE_BACK | SUMMARY | EXAMPLE | PARALLEL | UNKNOWN

record ParagraphRelation =
  source_id :: pystr
  target_id :: pystr
  relation_type :: RelationType
  marker_words :: "pystr list"
  confidence :: real
  description :: pystr

record Segment =
  id' :: pystr
  start_time :: real
  end_time :: real
  audio_path :: pystr
  text' :: pystr
  markers :: "pystr list"
  topics :: "pystr list"
  importance_score :: real
  relations :: "ParagraphRelation list"
  confidence :: real
  is_core_argument :: bool

text \<open>The dataclass constructor called with the five leading fields: the rest take their defaults.\<close>

definition new_Segment :: "pystr \<Rightarrow> real \<Rightarrow> real \<Rightarrow> pystr \<Rightarrow> pystr \<Rightarrow> Segment" where
  "new_Segment i s e path t =
     \<lparr>id' = i, start_time = s, end_time = e, audio_path = path, text' = t, markers = [],
      topics = [], importance_score = 0.5, relations = [], confidence = 0,
      is_core_argument = False\<rparr>"

definition duration :: "Segment \<Rightarrow> real" where
  "duration self = end_time self - start_time self"

text \<open>\<open>int(x)\<close> on a float truncates towards zero.\<close>

definition py_int :: "real \<Rightarrow> int" where
  "py_int x = (if 0 \<le> x then \<lfloor>x\<rfloor> else \<lceil>x\<rceil>)"

text \<open>\<open>str(n)\<close> of a natural number, and the format \<open>{:02d}\<close> of an integer.\<close>

fun str_nat :: "nat \<Rightarrow> pystr" where
  "str_nat n = (if n < 10 then [48 + int n] else str_nat (n div 10) @ [48 + int (n mod 10)])"

declare str_nat.simps [simp del]

definition fmt02 :: "int \<Rightarrow> pystr" where
  "fmt02 n = (if n < 0 then 0x2D # str_nat (nat (- n))
              else if n < 10 then 0x30 # str_nat (nat n)
              else str_nat (nat n))"

text \<open>
  \<open>x // 60\<close> is the floor of the quotient and \<open>x % 60\<close> the remainder that goes with it.
\<close>

definition format_timestamp :: "Segment \<Rightarrow> pystr" where
  "format_timestamp self =
     (let start_min = py_int (real_of_int \<lfloor>start_time self / 60\<rfloor>);
          start_sec = py_int (start_time self - 60 * real_of_int \<lfloor>start_time self / 60\<rfloor>);
          end_min = py_int (real_of_int \<lfloor>end_time self / 60\<rfloor>);
          end_sec = py_int (end_time self - 60 * real_of_int \<lfloor>end_time self / 60\<rfloor>)
      in fmt02 start_min @ ascii '':'' @ fmt02 start_sec @ ascii '' - '' @
         fmt02 end_min @ ascii '':'' @ fmt02 end_sec)"

record LogicChain =
  chain_id :: pystr
  chain_type :: pystr
  segments :: "pystr list"
  description :: pystr
  importance :: real

text \<open>
  A value of the dictionaries the code builds or receives, as far as the model needs
  it. The metadata dictionary has three fixed integer entries and is a record; the
  creation time of a document is read from the clock and is left out.
\<close>

datatype json = JNum real | JStr pystr | JList "json list" | JDict "(pystr \<times> json) list"

record Metadata =
  core_arguments_count :: nat
  logic_chains_count :: nat
  total_topics :: nat

record Document =
  source_file :: pystr
  segments :: "Segment list"
  logic_chains :: "LogicChain list"
  topic_tree :: "(pystr \<times> json) list"
  metadata :: Metadata

definition get_core_arguments :: "Document \<Rightarrow> Segment list" where
  "get_core_arguments self = filter is_core_argument (Document.segments self)"

section \<open>Audio segmenter (src/core/audio_segmenter.py)\<close>



subsection \<open>merge_short_segments\<close>



subsection \<open>split_long_segments\<close>




section \<open>Semantic analyzer (src/core/semantic_analyzer.py)\<close>

subsection \<open>The Unicode tables of the runtime\<close>

text \<open>
  The code reads two tables of the Python runtime: \<open>str.isalnum\<close>, through the word
  characters of the regular expressions (alphanumeric or underscore), and
  \<open>str.isspace\<close>, through \<open>str.strip\<close>. The functions below take the tables as a
  parameter, so that what is proved for every table holds for the runtime's.

  \<open>py_unicode\<close> is the instance for concrete texts. Its \<open>isspace\<close> is the runtime's
  table. Its \<open>isalnum\<close> covers the ASCII letters and digits and the CJK unified
  ideographs U+4E00 to U+9FFF, and nothing else: it is used only on texts made of
  these, of ASCII punctuation and of the CJK punctuation U+3002 and U+FF0C.
\<close>

record unicode_db =
  isalnum :: "int \<Rightarrow> bool"
  isspace :: "int \<Rightarrow> bool"

definition py_isalnum :: "int \<Rightarrow> bool" where
  "py_isalnum c = ((0x30 \<le> c \<and> c \<le> 0x39) \<or> (0x41 \<le> c \<and> c \<le> 0x5A) \<or>
                   (0x61 \<le> c \<and> c \<le> 0x7A) \<or> (0x4E00 \<le> c \<and> c \<le> 0x9FFF))"

definition py_isspace :: "int \<Rightarrow> bool" where
  "py_isspace c = ((0x09 \<le> c \<and> c \<le> 0x0D) \<or> (0x1C \<le> c \<and> c \<le> 0x20) \<or>
                   c = 0x85 \<or> c = 0xA0 \<or> c = 0x1680 \<or> (0x2000 \<le> c \<and> c \<le> 0x200A) \<or>
                   c = 0x2028 \<or> c = 0x2029 \<or> c = 0x202F \<or> c = 0x205F \<or> c = 0x3000)"

definition py_unicode :: unicode_db where
  "py_unicode = \<lparr>isalnum = py_isalnum, isspace = py_isspace\<rparr>"

subsection \<open>The marker lexicon\<close>

text \<open>
  \<open>self.markers\<close>: a dictionary from relation type to its keyword list, in insertion
  order. \<open>SEMANTIC_MARKERS\<close> is the class constant, its keywords written as code
  points.
\<close>

type_synonym lexicon = "(RelationType \<times> pystr list) list"

definition SEMANTIC_MARKERS :: lexicon where
  "SEMANTIC_MARKERS =
    [(CONTRAST,
       [[0x4F46, 0x662F],
        [0x7136, 0x800C],
        [0x4E0D, 0x8FC7],
        [0x53EF, 0x662F],
        [0x53CD, 0x8FC7, 0x6765, 0x8BF4],
        [0x76F8, 0x53CD],
        [0x76F8, 0x5BF9, 0x800C, 0x8A00],
        [0x4E0E, 0x6B64, 0x76F8, 0x53CD]]),
     (ADDITION,
       [[0x800C, 0x4E14],
        [0x5E76, 0x4E14],
        [0x8FD8, 0x6709],
        [0x53E6, 0x5916],
        [0x6B64, 0x5916],
        [0x518D, 0x8005],
        [0x540C, 0x65F6],
        [0x4EE5, 0x53CA]]),
     (CAUSALITY,
       [[0x6240, 0x4EE5],
        [0x56E0, 0x6B64],
        [0x56E0, 0x4E3A],
        [0x7531, 0x4E8E],
        [0x5BFC, 0x81F4],
        [0x7ED3, 0x679C],
        [0x56E0, 0x800C],
        [0x4ECE, 0x800C]]),
     (REFERENCE_BACK,
       [[0x56DE, 0x8FC7, 0x5934, 0x6765, 0x8BB2],
        [0x524D, 0x9762, 0x8BF4, 0x5230],
        [0x521A, 0x624D, 0x63D0, 0x5230],
        [0x4E4B, 0x524D, 0x8BB2, 0x8FC7],
        [0x5982, 0x524D, 0x6240, 0x8FF0],
        [0x6B63, 0x5982, 0x6211, 0x8BF4, 0x7684]]),
     (SUMMARY,
       [[0x603B, 0x4E4B],
        [0x7EFC, 0x4E0A, 0x6240, 0x8FF0],
        [0x603B, 0x7684, 0x6765, 0x8BF4],
        [0x6982, 0x62EC, 0x6765, 0x8BF4],
        [0x5F52, 0x7EB3, 0x8D77, 0x6765],
        [0x7B80, 0x800C, 0x8A00, 0x4E4B]]),
     (EXAMPLE,
       [[0x6BD4, 0x5982],
        [0x4F8B, 0x5982],
        [0x8B6C, 0x5982],
        [0x6BD4, 0x65B9, 0x8BF4],
        [0x4E3E, 0x4F8B, 0x6765, 0x8BF4],
        [0x5C31, 0x50CF]])]"




subsection \<open>detect_markers\<close>

text \<open>\<open>keyword in text\<close>: the keyword occurs as a contiguous run of the text.\<close>

fun py_in :: "pystr \<Rightarrow> pystr \<Rightarrow> bool" where
  "py_in keyword [] = (keyword = [])"
| "py_in keyword (c # cs) = (take (length keyword) (c # cs) = keyword \<or> py_in keyword cs)"

fun keywords_found :: "pystr \<Rightarrow> RelationType \<Rightarrow> pystr list \<Rightarrow> (pystr \<times> RelationType) list" where
  "keywords_found text rel_type [] = []"
| "keywords_found text rel_type (keyword # keywords) =
     (if py_in keyword text
      then (keyword, rel_type) # keywords_found text rel_type keywords
      else keywords_found text rel_type keywords)"

fun detect_markers :: "lexicon \<Rightarrow> pystr \<Rightarrow> (pystr \<times> RelationType) list" where
  "detect_markers [] text = []"
| "detect_markers ((rel_type, keywords) # rest) text =
     keywords_found text rel_type keywords @ detect_markers rest text"

subsection \<open>The word-bounded marker pattern and \<open>re.finditer\<close>\<close>

text \<open>
  The pattern is the escaped marker between two word-boundary assertions. The escaped
  marker matches itself, letter by letter. A word boundary holds at a position when
  exactly one of the characters before and after it is a word character; outside the
  text there is none. \<open>finditer\<close> scans from the left; after a match it resumes at the
  end of the match, or one position further when the match is empty (an empty marker).
\<close>

definition is_word :: "unicode_db \<Rightarrow> int \<Rightarrow> bool" where
  "is_word u c = (isalnum u c \<or> c = 0x5F)"

definition word_boundary :: "unicode_db \<Rightarrow> pystr \<Rightarrow> nat \<Rightarrow> bool" where
  "word_boundary u text p =
     ((0 < p \<and> p \<le> length text \<and> is_word u (text ! (p - 1))) \<noteq>
      (p < length text \<and> is_word u (text ! p)))"

definition match_at :: "unicode_db \<Rightarrow> pystr \<Rightarrow> pystr \<Rightarrow> nat \<Rightarrow> bool" where
  "match_at u marker text p =
     (word_boundary u text p \<and> take (length marker) (drop p text) = marker \<and>
      word_boundary u text (p + length marker))"

function finditer_from :: "unicode_db \<Rightarrow> pystr \<Rightarrow> pystr \<Rightarrow> nat \<Rightarrow> nat list" where
  "finditer_from u marker text p =
     (if length text < p then []
      else if match_at u marker text p
           then p # finditer_from u marker text (p + max 1 (length marker))
           else finditer_from u marker text (p + 1))"
  by pat_completeness auto
termination
  by (relation "measure (\<lambda>(u, marker, text, p). Suc (length text) - p)") auto

declare finditer_from.simps [simp del]

definition finditer :: "unicode_db \<Rightarrow> pystr \<Rightarrow> pystr \<Rightarrow> nat list" where
  "finditer u marker text = finditer_from u marker text 0"

subsection \<open>split_by_markers\<close>

text \<open>\<open>str.strip()\<close> removes the white space at both ends.\<close>

definition strip :: "unicode_db \<Rightarrow> pystr \<Rightarrow> pystr" where
  "strip u s = rev (dropWhile (isspace u) (rev (dropWhile (isspace u) s)))"

type_synonym split_point = "nat \<times> pystr \<times> RelationType"

fun split_points_of :: "unicode_db \<Rightarrow> pystr \<Rightarrow> (pystr \<times> RelationType) list \<Rightarrow> split_point list" where
  "split_points_of u text [] = []"
| "split_points_of u text ((marker, rel_type) # rest) =
     map (\<lambda>start. (start, marker, rel_type)) (finditer u marker text) @
     split_points_of u text rest"

text \<open>
  The sub-segment the code constructs: identifier \<open>f"{segment.id}_sub{i}"\<close>, the audio
  path and the confidence of the parent, the defaults for the fields not given.
\<close>

definition sub_segment :: "Segment \<Rightarrow> nat \<Rightarrow> real \<Rightarrow> real \<Rightarrow> pystr \<Rightarrow> pystr list \<Rightarrow> Segment" where
  "sub_segment segment i sub_start sub_end sub_text ms =
     \<lparr>id' = id' segment @ ascii ''_sub'' @ str_nat i,
      start_time = sub_start,
      end_time = sub_end,
      audio_path = audio_path segment,
      text' = sub_text,
      markers = ms,
      topics = [],
      importance_score = 0.5,
      relations = [],
      confidence = Segment.confidence segment,
      is_core_argument = False\<rparr>"

text \<open>
  The loop over the sorted split points, with the index \<open>i\<close> of \<open>enumerate\<close>, \<open>last_pos\<close>
  and \<open>sub_segments\<close> passed along. The slice \<open>text[last_pos:pos]\<close> is
  \<open>take (pos - last_pos) (drop last_pos text)\<close>. The division by \<open>len(text)\<close> raises on
  an empty text.
\<close>

fun split_walk :: "unicode_db \<Rightarrow> Segment \<Rightarrow> nat \<Rightarrow> nat \<Rightarrow> Segment list \<Rightarrow> split_point list
    \<Rightarrow> py_error + (Segment list \<times> nat)" where
  "split_walk u segment i last_pos sub_segments [] = Inr (sub_segments, last_pos)"
| "split_walk u segment i last_pos sub_segments ((pos, marker, rel_type) # rest) =
     (let sub_text = strip u (take (pos - last_pos) (drop last_pos (text' segment))) in
      if sub_text \<noteq> [] then
        if length (text' segment) = 0 then Inl ZeroDivisionError
        else
          let char_ratio_start = real last_pos / real (length (text' segment));
              char_ratio_end = real pos / real (length (text' segment));
              sub_start = start_time segment + char_ratio_start * duration segment;
              sub_end = start_time segment + char_ratio_end * duration segment
          in split_walk u segment (i + 1) pos
               (sub_segments @ [sub_segment segment i sub_start sub_end sub_text []]) rest
      else split_walk u segment (i + 1) pos sub_segments rest)"

text \<open>
  The markers of the last sub-segment are the comprehension
  \<open>[marker for _, marker, _ in split_points if _ >= last_pos]\<close>. Its target list binds
  \<open>_\<close> twice, left to right, so that in the condition \<open>_\<close> is the third component of the
  split point, the relation type. \<open>RelationType\<close> is a plain \<open>Enum\<close>, which has no order
  with an integer: the comparison raises \<open>TypeError\<close>, at the first split point.
\<close>

definition enum_ge_int :: "RelationType \<Rightarrow> nat \<Rightarrow> py_error + bool" where
  "enum_ge_int rel_type n = Inl TypeError"

fun final_markers :: "split_point list \<Rightarrow> nat \<Rightarrow> py_error + pystr list" where
  "final_markers [] last_pos = Inr []"
| "final_markers ((pos, marker, rel_type) # rest) last_pos =
     (case enum_ge_int rel_type last_pos of
        Inl e \<Rightarrow> Inl e
      | Inr keep \<Rightarrow>
          (case final_markers rest last_pos of
             Inl e \<Rightarrow> Inl e
           | Inr ms \<Rightarrow> Inr (if keep then marker # ms else ms)))"

text \<open>
  \<open>list.sort\<close> with a key is stable, as \<open>sort_key\<close> is. The arguments of the last
  \<open>Segment(...)\<close> are evaluated in the order written: the division for \<open>start_time\<close>
  before the comprehension for \<open>markers\<close>.
\<close>

definition split_by_markers :: "unicode_db \<Rightarrow> lexicon \<Rightarrow> Segment \<Rightarrow> py_error + Segment list" where
  "split_by_markers u self_markers segment =
     (let text = text' segment;
          markers' = detect_markers self_markers text
      in if markers' = [] then Inr [segment]
         else
           let split_points = split_points_of u text markers'
           in if split_points = [] then Inr [segment]
              else
                let split_points = sort_key fst split_points
                in case split_walk u segment 0 0 [] split_points of
                     Inl e \<Rightarrow> Inl e
                   | Inr (sub_segments, last_pos) \<Rightarrow>
                       let last_text = strip u (drop last_pos text)
                       in if last_text \<noteq> [] then
                            if length text = 0 then Inl ZeroDivisionError
                            else
                              (case final_markers split_points last_pos of
                                 Inl e \<Rightarrow> Inl e
                               | Inr ms \<Rightarrow>
                                   let sub_segments = sub_segments @
                                         [sub_segment segment (length split_points)
                                            (start_time segment +
                                               (real last_pos / real (length text)) * duration segment)
                                            (end_time segment) last_text ms]
                                   in Inr (if sub_segments \<noteq> [] then sub_segments else [segment]))
                          else Inr (if sub_segments \<noteq> [] then sub_segments else [segment]))"

subsection \<open>calculate_importance\<close>

text \<open>
  The inner loop over the lexicon stops at the first relation type whose keywords hold
  the marker (\<open>break\<close>); the outer loop goes through all the markers of the segment.
\<close>

fun marker_type_bonus :: "lexicon \<Rightarrow> pystr \<Rightarrow> real \<Rightarrow> real" where
  "marker_type_bonus [] marker score = score"
| "marker_type_bonus ((rel_type, keywords) # rest) marker score =
     (if marker \<in> set keywords
      then (if rel_type = SUMMARY then score + 0.3
            else if rel_type = CAUSALITY then score + 0.2
            else score)
      else marker_type_bonus rest marker score)"

fun markers_bonus :: "lexicon \<Rightarrow> pystr list \<Rightarrow> real \<Rightarrow> real" where
  "markers_bonus self_markers [] score = score"
| "markers_bonus self_markers (marker # rest) score =
     markers_bonus self_markers rest (marker_type_bonus self_markers marker score)"

definition reference_count :: "Segment \<Rightarrow> Segment list \<Rightarrow> nat" where
  "reference_count segment all_segments =
     length (concat (map (\<lambda>s. filter (\<lambda>r. target_id r = id' segment \<or> source_id r = id' segment)
                                   (relations s)) all_segments))"

definition calculate_importance :: "lexicon \<Rightarrow> Segment \<Rightarrow> Segment list \<Rightarrow> real" where
  "calculate_importance self_markers segment all_segments =
     (let score = 0.5;
          score = markers_bonus self_markers (markers segment) score;
          score = score + min (real (reference_count segment all_segments) * 0.1) 0.3;
          score = (if length (text' segment) > 100 then score + 0.1 else score)
      in min score 1.0)"

section \<open>Logic reconstructor (src/core/logic_reconstructor.py)\<close>

text \<open>
  The dictionaries exchanged with the language-model client, one field per key, \<open>None\<close>
  for an absent key; \<open>get\<close> is \<open>dict.get\<close> with a default.
\<close>

record SegmentData =
  key_id :: pystr
  key_text :: pystr
  key_timestamp :: pystr
  key_markers :: "pystr list"
  key_topics :: "pystr list"

record ChainData =
  key_chain_id :: "pystr option"
  key_chain_type :: "pystr option"
  key_segments :: "pystr list option"
  key_description :: "pystr option"
  key_importance :: "real option"

record AnalysisResult =
  key_core_arguments :: "pystr list option"
  key_supporting_points :: "pystr list option"
  key_logic_chains :: "ChainData list option"
  key_paragraph_relations :: "json list option"
  key_topic_tree :: "(pystr \<times> json) list option"

definition get :: "'a option \<Rightarrow> 'a \<Rightarrow> 'a" where
  "get v dflt = (case v of None \<Rightarrow> dflt | Some x \<Rightarrow> x)"

text \<open>
  The client is an external service: each call takes the state \<open>'w\<close> of the world and
  returns the next one, with the result or the exception raised. The awaited calls run
  one after the other.
\<close>

record 'w LLMClient =
  extract_topics :: "pystr \<Rightarrow> 'w \<Rightarrow> (py_error + pystr list) \<times> 'w"
  analyze_paragraphs :: "SegmentData list \<Rightarrow> 'w \<Rightarrow> (py_error + AnalysisResult) \<times> 'w"

fun extract_topics_for_segments :: "'w LLMClient \<Rightarrow> Segment list \<Rightarrow> 'w \<Rightarrow> Segment list \<times> 'w" where
  "extract_topics_for_segments llm_client [] w = ([], w)"
| "extract_topics_for_segments llm_client (segment # rest) w =
     (if text' segment \<noteq> [] then
        (case extract_topics llm_client (text' segment) w of
           (Inr topics', w') \<Rightarrow>
             (case extract_topics_for_segments llm_client rest w' of
                (rest', w'') \<Rightarrow> (segment\<lparr>topics := topics'\<rparr> # rest', w''))
         | (Inl e, w') \<Rightarrow>
             (case extract_topics_for_segments llm_client rest w' of
                (rest', w'') \<Rightarrow> (segment\<lparr>topics := []\<rparr> # rest', w'')))
      else
        (case extract_topics_for_segments llm_client rest w of
           (rest', w'') \<Rightarrow> (segment # rest', w'')))"

definition segments_data :: "Segment list \<Rightarrow> SegmentData list" where
  "segments_data segs =
     map (\<lambda>seg. \<lparr>key_id = id' seg, key_text = text' seg,
                  key_timestamp = format_timestamp seg,
                  key_markers = markers seg, key_topics = topics seg\<rparr>) segs"

text \<open>The dictionary of the \<open>except\<close> branch.\<close>

definition empty_result :: AnalysisResult where
  "empty_result =
     \<lparr>key_core_arguments = Some [], key_supporting_points = Some [],
      key_logic_chains = Some [], key_paragraph_relations = Some [], key_topic_tree = Some []\<rparr>"

definition analyze_logic_structure :: "'w LLMClient \<Rightarrow> Segment list \<Rightarrow> 'w \<Rightarrow> AnalysisResult \<times> 'w" where
  "analyze_logic_structure llm_client segs w =
     (case analyze_paragraphs llm_client (segments_data segs) w of
        (Inr analysis_result, w') \<Rightarrow> (analysis_result, w')
      | (Inl e, w') \<Rightarrow> (empty_result, w'))"

definition build_logic_chains :: "AnalysisResult \<Rightarrow> LogicChain list" where
  "build_logic_chains analysis_result =
     map (\<lambda>chain_data.
            \<lparr>chain_id = get (key_chain_id chain_data) [],
             chain_type = get (key_chain_type chain_data) (ascii ''UNKNOWN''),
             LogicChain.segments = get (key_segments chain_data) [],
             description = get (key_description chain_data) [],
             importance = get (key_importance chain_data) 0.5\<rparr>)
         (get (key_logic_chains analysis_result) [])"

text \<open>
  The loop updates each segment object in place and returns the same list; the model
  returns the updated list. The update is idempotent, so a segment object that occurs
  twice in the list ends as the model says.
\<close>

primrec mark_core_arguments :: "Segment list \<Rightarrow> pystr list \<Rightarrow> Segment list" where
  "mark_core_arguments [] core_ids = []"
| "mark_core_arguments (segment # rest) core_ids =
     (if id' segment \<in> set core_ids
      then segment\<lparr>is_core_argument := True,
                   importance_score := max (importance_score segment) 0.9\<rparr>
      else segment) # mark_core_arguments rest core_ids"

text \<open>
  \<open>topic_segments\<close> is a dictionary in insertion order: a new topic goes to the end, a
  known one gets the segment identifier appended to its list.
\<close>

fun group_topic :: "(pystr \<times> pystr list) list \<Rightarrow> pystr \<Rightarrow> pystr \<Rightarrow> (pystr \<times> pystr list) list" where
  "group_topic [] topic seg_id = [(topic, [seg_id])]"
| "group_topic ((t, seg_ids) # rest) topic seg_id =
     (if t = topic then (t, seg_ids @ [seg_id]) # rest
      else (t, seg_ids) # group_topic rest topic seg_id)"

fun group_topics :: "(pystr \<times> pystr list) list \<Rightarrow> Segment list \<Rightarrow> (pystr \<times> pystr list) list" where
  "group_topics topic_segments [] = topic_segments"
| "group_topics topic_segments (seg # rest) =
     group_topics
       (fold (\<lambda>topic acc. group_topic acc topic (id' seg)) (topics seg) topic_segments) rest"

definition build_topic_tree :: "Segment list \<Rightarrow> (pystr \<times> json) list \<Rightarrow> (pystr \<times> json) list" where
  "build_topic_tree segs topic_tree_data =
     (if topic_tree_data \<noteq> [] then topic_tree_data
      else
        [(ascii ''main_topic'', JStr [0x6587, 0x6863, 0x4E3B, 0x9898]),
         (ascii ''subtopics'',
          JList (map (\<lambda>(topic, seg_ids).
                        JDict [(ascii ''name'', JStr topic),
                               (ascii ''segments'', JList (map JStr seg_ids))])
                     (group_topics [] segs)))])"

definition reconstruct :: "'w LLMClient \<Rightarrow> Segment list \<Rightarrow> 'w \<Rightarrow> Document \<times> 'w" where
  "reconstruct llm_client segs w =
     (case extract_topics_for_segments llm_client segs w of (segs, w) \<Rightarrow>
      case analyze_logic_structure llm_client segs w of (analysis_result, w) \<Rightarrow>
        let logic_chains' = build_logic_chains analysis_result;
            core_argument_ids = get (key_core_arguments analysis_result) [];
            segs = mark_core_arguments segs core_argument_ids;
            topic_tree' = build_topic_tree segs (get (key_topic_tree analysis_result) [])
        in (\<lparr>source_file = [],
             segments = segs,
             logic_chains = logic_chains',
             topic_tree = topic_tree',
             metadata = \<lparr>core_arguments_count = length core_argument_ids,
                         logic_chains_count = length logic_chains',
                         total_topics = length (remdups (concat (map topics segs)))\<rparr>\<rparr>, w))"

section \<open>Concrete inputs\<close>

text \<open>
  The segment of the demonstration at the end of semantic_analyzer.py, with the text
  of the scenario (U+6211 ... U+3002: two sentences, the second one starting with the
  marker U+4F46 U+662F).
\<close>

definition scenario_text :: pystr where
  "scenario_text =
     [0x6211, 0x4EEC, 0x9996, 0x5148, 0x8981, 0x7406, 0x89E3, 0x54F2, 0x5B66, 0x7684, 0x672C,
      0x8D28, 0x3002, 0x4F46, 0x662F, 0x8FD9, 0x4E2A, 0x95EE, 0x9898, 0x5F88, 0x590D, 0x6742,
      0x3002]"

definition seg_1 :: Segment where
  "seg_1 = new_Segment (ascii ''seg_1'') 0 10 (ascii ''test.wav'') scenario_text"

text \<open>
  The segment \<open>seg_005\<close> of test_mock.py: its text starts with the marker U+56E0 U+6B64
  followed by the comma U+FF0C.
\<close>

definition seg_005 :: Segment where
  "seg_005 =
     (new_Segment (ascii ''seg_005'') 32.5 40.0 (ascii ''mock_audio_005.wav'')
        [0x56E0, 0x6B64, 0xFF0C, 0x6211, 0x4EEC, 0x9700, 0x8981, 0x60AC, 0x7F6E, 0x81EA, 0x7136,
         0x6001, 0x5EA6, 0x3002, 0x8FD9, 0x53EB, 0x505A, 0x73B0, 0x8C61, 0x5B66, 0x8FD8, 0x539F,
         0x3002])
     \<lparr>confidence := 0.93\<rparr>"


text \<open>
  A segment whose text holds a causality marker (U+56E0 U+6B64) and a summary marker
  (U+603B U+4E4B), with the markers that \<open>detect_markers\<close> finds in it.
\<close>

definition seg_both :: Segment where
  "seg_both =
     (new_Segment (ascii ''seg_both'') 0 10 (ascii ''both.wav'')
        [0x56E0, 0x6B64, 0xFF0C, 0x603B, 0x4E4B, 0x3002])
     \<lparr>markers := [[0x56E0, 0x6B64], [0x603B, 0x4E4B]]\<rparr>"

text \<open>
  Three clients: one whose paragraph analysis raises, one that reports a core argument
  no segment has, one that reports the segment \<open>seg_1\<close>.
\<close>

definition failing_client :: "unit LLMClient" where
  "failing_client =
     \<lparr>extract_topics = (\<lambda>t w. (Inr [ascii ''topic''], w)),
      analyze_paragraphs = (\<lambda>d w. (Inl (Exception' (ascii ''timeout'')), w))\<rparr>"

definition ghost_client :: "unit LLMClient" where
  "ghost_client =
     \<lparr>extract_topics = (\<lambda>t w. (Inr [], w)),
      analyze_paragraphs =
        (\<lambda>d w. (Inr (empty_result\<lparr>key_core_arguments := Some [ascii ''ghost'']\<rparr>), w))\<rparr>"

definition core_client :: "unit LLMClient" where
  "core_client =
     \<lparr>extract_topics = (\<lambda>t w. (Inr [], w)),
      analyze_paragraphs =
        (\<lambda>d w. (Inr (empty_result\<lparr>key_core_arguments := Some [ascii ''seg_1'']\<rparr>), w))\<rparr>"

section \<open>Predicates of the properties\<close>



text \<open>The time a character offset is mapped to, and the invariant of the walk.\<close>

definition at_offset :: "Segment \<Rightarrow> nat \<Rightarrow> real" where
  "at_offset segment p =
     start_time segment + (real p / real (length (text' segment))) * duration segment"


text \<open>
  The relation type that decides the bonus of one marker, the first of the lexicon
  that lists it, and the bonus of that type.
\<close>

fun first_type :: "lexicon \<Rightarrow> pystr \<Rightarrow> RelationType option" where
  "first_type [] marker = None"
| "first_type ((rel_type, keywords) # rest) marker =
     (if marker \<in> set keywords then Some rel_type else first_type rest marker)"

definition bonus_of :: "RelationType option \<Rightarrow> real" where
  "bonus_of t = (if t = Some SUMMARY then 0.3 else if t = Some CAUSALITY then 0.2 else 0)"

section \<open>Properties of the audio segmenter\<close>

subsection \<open>The merge pass\<close>





subsection \<open>The split pass\<close>







section \<open>Properties of the semantic analyzer\<close>

subsection \<open>The scenario\<close>

text \<open>
  C1. On the text of the scenario, marker detection returns the marker U+4F46 U+662F
  with CONTRAST, and only it. \<open>split_by_markers\<close> on the segment with this text returns
  the segment itself, one element and not two sub-segments: the marker is followed by
  the ideograph U+8FD9, a word character, so the word-bounded pattern has no match.
\<close>

theorem split_by_markers_scenario:
  "detect_markers SEMANTIC_MARKERS scenario_text = [([0x4F46, 0x662F], CONTRAST)] \<and>
   finditer py_unicode [0x4F46, 0x662F] scenario_text = [] \<and>
   split_by_markers py_unicode SEMANTIC_MARKERS seg_1 = Inr [seg_1]"
  by code_simp

subsection \<open>The last sub-segment\<close>

text \<open>
  C2. On the segment \<open>seg_005\<close>, whose text starts with a marker followed by a comma,
  the pattern matches at offset 0 and the text from there on is not empty; building
  the markers of the last sub-segment raises \<open>TypeError\<close>, and no sub-segment is
  returned.
\<close>

theorem split_by_markers_last_raises:
  "detect_markers SEMANTIC_MARKERS (text' seg_005) = [([0x56E0, 0x6B64], CAUSALITY)] \<and>
   finditer py_unicode [0x56E0, 0x6B64] (text' seg_005) = [0] \<and>
   split_by_markers py_unicode SEMANTIC_MARKERS seg_005 = Inl TypeError"
  by code_simp

subsection \<open>Timestamps of the sub-segments\<close>













lemma split_by_markers_split:
  assumes "split_points_of u (text' segment) (detect_markers self_markers (text' segment)) \<noteq> []"
  shows "split_by_markers u self_markers segment =
     (case split_walk u segment 0 0 []
             (sort_key fst (split_points_of u (text' segment)
                (detect_markers self_markers (text' segment)))) of
        Inl e \<Rightarrow> Inl e
      | Inr (sub_segments, last_pos) \<Rightarrow>
          if strip u (drop last_pos (text' segment)) \<noteq> [] then
            if length (text' segment) = 0 then Inl ZeroDivisionError
            else
              (case final_markers
                      (sort_key fst (split_points_of u (text' segment)
                         (detect_markers self_markers (text' segment)))) last_pos of
                 Inl e \<Rightarrow> Inl e
               | Inr ms \<Rightarrow>
                   Inr (sub_segments @
                     [sub_segment segment
                        (length (split_points_of u (text' segment)
                           (detect_markers self_markers (text' segment))))
                        (at_offset segment last_pos) (end_time segment)
                        (strip u (drop last_pos (text' segment))) ms]))
          else Inr (if sub_segments \<noteq> [] then sub_segments else [segment]))"
proof -
  have "detect_markers self_markers (text' segment) \<noteq> []"
    using assms by auto
  then show ?thesis
    using assms
    by (simp add: split_by_markers_def Let_def at_offset_def split: sum.splits prod.splits)
qed



subsection \<open>Segments on which the split raises\<close>

lemma keywords_found_set:
  "x \<in> set (keywords_found t rt ks) \<Longrightarrow> fst x \<in> set ks"
  by (induction t rt ks rule: keywords_found.induct) (auto split: if_splits)

lemma detect_markers_set:
  "x \<in> set (detect_markers self_markers t) \<Longrightarrow> \<exists>e \<in> set self_markers. fst x \<in> set (snd e)"
  by (induction self_markers t rule: detect_markers.induct)
     (auto dest: keywords_found_set)

lemma finditer_from_match:
  "p \<in> set (finditer_from u marker t p0) \<Longrightarrow> match_at u marker t p"
proof (induction u marker t p0 rule: finditer_from.induct)
  case (1 u marker t p0)
  then show ?case
    by (subst (asm) (3) finditer_from.simps) (auto split: if_splits)
qed

lemma split_points_of_match:
  "x \<in> set (split_points_of u t ms) \<Longrightarrow>
   match_at u (fst (snd x)) t (fst x) \<and> fst (snd x) \<in> fst ` set ms"
  by (induction u t ms rule: split_points_of.induct)
     (auto simp: finditer_def dest: finditer_from_match)

lemma strip_empty_iff: "strip u s = [] \<longleftrightarrow> (\<forall>c \<in> set s. isspace u c)"
proof -
  have "strip u s = [] \<longleftrightarrow> (\<forall>c \<in> set (dropWhile (isspace u) s). isspace u c)"
    by (simp add: strip_def dropWhile_eq_Nil_conv)
  also have "\<dots> \<longleftrightarrow> (\<forall>c \<in> set s. isspace u c)"
  proof
    assume a: "\<forall>c \<in> set (dropWhile (isspace u) s). isspace u c"
    show "\<forall>c \<in> set s. isspace u c"
    proof (cases "dropWhile (isspace u) s")
      case Nil
      then show ?thesis by (simp add: dropWhile_eq_Nil_conv)
    next
      case (Cons x xs)
      then have "\<not> isspace u x" using hd_dropWhile [of "isspace u" s] by auto
      moreover have "isspace u x" using a Cons by simp
      ultimately show ?thesis by simp
    qed
  next
    assume "\<forall>c \<in> set s. isspace u c"
    then show "\<forall>c \<in> set (dropWhile (isspace u) s). isspace u c"
      using set_dropWhileD by fast
  qed
  finally show ?thesis .
qed

lemma match_at_word_after:
  assumes "match_at u marker t p" "marker \<noteq> []"
  shows "\<exists>j. p \<le> j \<and> j < length t \<and> is_word u (t ! j)"
proof -
  have tk: "take (length marker) (drop p t) = marker"
    and wb: "word_boundary u t (p + length marker)"
    using assms(1) by (simp_all add: match_at_def)
  have pos: "0 < length marker" using assms(2) by simp
  have len: "p + length marker \<le> length t"
  proof -
    have "length (take (length marker) (drop p t)) = length marker" using tk by simp
    then have "length marker \<le> length t - p" by simp
    then show ?thesis using pos by arith
  qed
  from wb have "is_word u (t ! (p + length marker - 1)) \<or>
                (p + length marker < length t \<and> is_word u (t ! (p + length marker)))"
    unfolding word_boundary_def by auto
  then show ?thesis
  proof
    assume "is_word u (t ! (p + length marker - 1))"
    moreover have "p \<le> p + length marker - 1" "p + length marker - 1 < length t"
      using pos len by arith+
    ultimately show ?thesis by blast
  next
    assume "p + length marker < length t \<and> is_word u (t ! (p + length marker))"
    then show ?thesis by (intro exI [of _ "p + length marker"]) simp
  qed
qed

lemma split_walk_returns:
  "length (text' segment) \<noteq> 0 \<Longrightarrow>
   \<exists>subs. split_walk u segment i last_pos acc pts =
           Inr (subs, if pts = [] then last_pos else fst (last pts))"
proof (induction pts arbitrary: i last_pos acc)
  case Nil
  show ?case by simp
next
  case (Cons pt pts)
  obtain pos marker rt where pt: "pt = (pos, marker, rt)" by (cases pt)
  show ?case
    using Cons.IH [OF Cons.prems, of "i + 1" pos] Cons.prems unfolding pt
    by (auto simp: Let_def)
qed

lemma final_markers_raises: "pts \<noteq> [] \<Longrightarrow> final_markers pts last_pos = Inl TypeError"
  by (cases pts) (auto simp: enum_ge_int_def)

text \<open>
  The failure of C2 is general. When no character is both a word character and white
  space, as in the runtime's tables, and the lexicon has no empty keyword, every
  segment with a word-bounded occurrence of a marker makes \<open>split_by_markers\<close> raise
  \<open>TypeError\<close>: the text from the last occurrence on holds a word character, so the
  last sub-segment is always built. The class lexicon on \<open>py_unicode\<close> is such a case.
\<close>

lemma split_by_markers_raises:
  assumes ws: "\<forall>c. is_word u c \<longrightarrow> \<not> isspace u c"
    and ne: "\<forall>e \<in> set self_markers. [] \<notin> set (snd e)"
    and occ: "split_points_of u (text' segment) (detect_markers self_markers (text' segment)) \<noteq> []"
  shows "split_by_markers u self_markers segment = Inl TypeError"
proof -
  let ?text = "text' segment"
  let ?raw = "split_points_of u ?text (detect_markers self_markers ?text)"
  let ?pts = "sort_key fst ?raw"
  have "length ?pts = length ?raw" by simp
  then have pne: "?pts \<noteq> []" using occ by (cases ?pts) auto
  obtain p marker rt where eq: "last ?pts = (p, marker, rt)" by (cases "last ?pts") auto
  have "last ?pts \<in> set ?pts" using pne by (rule last_in_set)
  then have x: "(p, marker, rt) \<in> set ?raw" using eq by simp
  have lp: "fst (last ?pts) = p" using eq by simp
  from split_points_of_match [OF x] have m: "match_at u marker ?text p"
    and d: "marker \<in> fst ` set (detect_markers self_markers ?text)" by simp_all
  from d obtain y where y: "y \<in> set (detect_markers self_markers ?text)" "marker = fst y"
    by blast
  from detect_markers_set [OF y(1)] obtain e where "e \<in> set self_markers" "fst y \<in> set (snd e)"
    by blast
  then have mne: "marker \<noteq> []" using ne y(2) by auto
  from match_at_word_after [OF m mne] obtain j
    where j: "p \<le> j" "j < length ?text" "is_word u (?text ! j)" by blast
  have tne: "length ?text \<noteq> 0" using j(2) by arith
  have "j - p < length (drop p ?text)" using j(1,2) by simp
  then have "drop p ?text ! (j - p) \<in> set (drop p ?text)" by (rule nth_mem)
  moreover have "drop p ?text ! (j - p) = ?text ! j" using j(1,2) by simp
  ultimately have "?text ! j \<in> set (drop p ?text)" by simp
  moreover have "\<not> isspace u (?text ! j)" using j(3) ws by simp
  ultimately have last_ne: "strip u (drop p ?text) \<noteq> []"
    unfolding strip_empty_iff by blast
  from split_walk_returns [OF tne, of u 0 0 "[]" ?pts] pne lp obtain subs
    where walk: "split_walk u segment 0 0 [] ?pts = Inr (subs, p)" by auto
  show ?thesis
    unfolding split_by_markers_split [OF occ]
    using walk last_ne tne final_markers_raises [OF pne] by simp
qed

lemma py_unicode_word_not_space: "\<forall>c. is_word py_unicode c \<longrightarrow> \<not> isspace py_unicode c"
  by (auto simp: is_word_def py_unicode_def py_isalnum_def py_isspace_def)

lemma SEMANTIC_MARKERS_nonempty: "\<forall>e \<in> set SEMANTIC_MARKERS. [] \<notin> set (snd e)"
  by (simp add: SEMANTIC_MARKERS_def)

subsection \<open>Importance\<close>

lemma marker_type_bonus_eq:
  "marker_type_bonus self_markers marker score = score + bonus_of (first_type self_markers marker)"
  by (induction self_markers marker score rule: marker_type_bonus.induct)
     (simp_all add: bonus_of_def)

lemma markers_bonus_eq:
  "markers_bonus self_markers ms score =
     score + sum_list (map (\<lambda>m. bonus_of (first_type self_markers m)) ms)"
  by (induction ms arbitrary: score) (simp_all add: marker_type_bonus_eq)

text \<open>
  C4, as amended. In importance scoring each marker of the segment brings at most one
  bonus, that of the first relation type of the lexicon that lists it: 0.3 for
  SUMMARY, 0.2 for CAUSALITY, nothing for another type or for none. The bonuses of
  the markers add up, on the base 0.5 and with the reference and length terms, before
  the score is capped at 1.
\<close>

theorem calculate_importance_bonus_per_marker:
  "calculate_importance self_markers segment all_segments =
     min (0.5 + sum_list (map (\<lambda>m. bonus_of (first_type self_markers m)) (markers segment))
            + min (real (reference_count segment all_segments) * 0.1) 0.3
            + (if length (text' segment) > 100 then 0.1 else 0)) 1"
  by (simp add: calculate_importance_def markers_bonus_eq Let_def)

text \<open>
  A segment with one causality and one summary marker: the two bonuses add up to 0.5.
\<close>

theorem calculate_importance_bonus_per_marker_witness:
  "map (\<lambda>m. bonus_of (first_type SEMANTIC_MARKERS m)) (markers seg_both) = [0.2, 0.3] \<and>
   calculate_importance SEMANTIC_MARKERS seg_both [seg_both] = 1"
proof -
  have b: "map (\<lambda>m. bonus_of (first_type SEMANTIC_MARKERS m)) (markers seg_both) = [0.2, 0.3]"
    by code_simp
  have r: "reference_count seg_both [seg_both] = 0" by code_simp
  have l: "length (text' seg_both) = 6" by code_simp
  show ?thesis
    using calculate_importance_bonus_per_marker [of SEMANTIC_MARKERS seg_both "[seg_both]"]
    unfolding b r l by simp
qed

text \<open>
  The claim as stated fails on this segment, whose markers are those detected in its
  text: it carries a SUMMARY and a CAUSALITY marker and its score is 0.5 + 0.3 + 0.2,
  not 0.5 + 0.3.
\<close>

theorem calculate_importance_stacks_counterexample:
  "map fst (detect_markers SEMANTIC_MARKERS (text' seg_both)) = markers seg_both \<and>
   first_type SEMANTIC_MARKERS [0x56E0, 0x6B64] = Some CAUSALITY \<and>
   first_type SEMANTIC_MARKERS [0x603B, 0x4E4B] = Some SUMMARY \<and>
   calculate_importance SEMANTIC_MARKERS seg_both [seg_both] = 0.5 + 0.3 + 0.2 \<and>
   calculate_importance SEMANTIC_MARKERS seg_both [seg_both] \<noteq> 0.5 + 0.3"
  by code_simp

section \<open>Properties of the logic reconstructor\<close>

subsection \<open>Core-argument marking\<close>

text \<open>
  C7. For every segment list and every list of core-argument identifiers, marking
  keeps the length of the list; every segment whose identifier is in the core list has
  its flag set and its importance score equal to the maximum of its previous score and
  0.9; and no segment's importance score decreases.
\<close>

theorem mark_core_arguments_marks:
  "length (mark_core_arguments segs core_ids) = length segs \<and>
   (\<forall>i < length segs.
      (id' (segs ! i) \<in> set core_ids \<longrightarrow>
         is_core_argument (mark_core_arguments segs core_ids ! i) \<and>
         importance_score (mark_core_arguments segs core_ids ! i) =
           max (importance_score (segs ! i)) 0.9) \<and>
      importance_score (segs ! i) \<le> importance_score (mark_core_arguments segs core_ids ! i))"
proof (induction segs)
  case Nil
  show ?case by simp
next
  case (Cons s segs)
  show ?case
  proof (intro conjI allI impI)
    show "length (mark_core_arguments (s # segs) core_ids) = length (s # segs)"
      using Cons.IH by simp
  next
    fix i assume "i < length (s # segs)" "id' ((s # segs) ! i) \<in> set core_ids"
    then show "is_core_argument (mark_core_arguments (s # segs) core_ids ! i)"
      using Cons.IH by (cases i) auto
  next
    fix i assume "i < length (s # segs)" "id' ((s # segs) ! i) \<in> set core_ids"
    then show "importance_score (mark_core_arguments (s # segs) core_ids ! i) =
           max (importance_score ((s # segs) ! i)) 0.9"
      using Cons.IH by (cases i) auto
  next
    fix i assume "i < length (s # segs)"
    then show "importance_score ((s # segs) ! i)
                 \<le> importance_score (mark_core_arguments (s # segs) core_ids ! i)"
      using Cons.IH by (cases i) auto
  qed
qed

text \<open>
  Two core segments, the first with the default score 0.5 and the second with the
  score 0.95: the first is raised to 0.9 and the second keeps its score.
\<close>

theorem mark_core_arguments_marks_witness:
  "id' ([seg_1, seg_005\<lparr>importance_score := 0.95\<rparr>] ! 0) \<in> set [ascii ''seg_1'', ascii ''seg_005''] \<and>
   id' ([seg_1, seg_005\<lparr>importance_score := 0.95\<rparr>] ! 1) \<in> set [ascii ''seg_1'', ascii ''seg_005''] \<and>
   is_core_argument (mark_core_arguments [seg_1, seg_005\<lparr>importance_score := 0.95\<rparr>]
                       [ascii ''seg_1'', ascii ''seg_005''] ! 0) \<and>
   importance_score (mark_core_arguments [seg_1, seg_005\<lparr>importance_score := 0.95\<rparr>]
                       [ascii ''seg_1'', ascii ''seg_005''] ! 0) = 0.9 \<and>
   importance_score (mark_core_arguments [seg_1, seg_005\<lparr>importance_score := 0.95\<rparr>]
                       [ascii ''seg_1'', ascii ''seg_005''] ! 1) = 0.95"
proof -
  let ?segs = "[seg_1, seg_005\<lparr>importance_score := 0.95\<rparr>]"
  let ?ids = "[ascii ''seg_1'', ascii ''seg_005'']"
  have m0: "id' (?segs ! 0) \<in> set ?ids" and m1: "id' (?segs ! 1) \<in> set ?ids"
    by (simp_all add: seg_1_def seg_005_def new_Segment_def)
  have s0: "importance_score (?segs ! 0) = 0.5" and s1: "importance_score (?segs ! 1) = 0.95"
    by (simp_all add: seg_1_def new_Segment_def)
  have l: "(0::nat) < length ?segs" "(1::nat) < length ?segs" by simp_all
  note t = mark_core_arguments_marks [of ?segs ?ids]
  from t l(1) m0 have a:
    "is_core_argument (mark_core_arguments ?segs ?ids ! 0) \<and>
     importance_score (mark_core_arguments ?segs ?ids ! 0) = max (importance_score (?segs ! 0)) 0.9"
    by blast
  from t l(2) m1 have b:
    "importance_score (mark_core_arguments ?segs ?ids ! 1) = max (importance_score (?segs ! 1)) 0.9"
    by blast
  have a': "importance_score (mark_core_arguments ?segs ?ids ! 0) = 0.9"
    using a unfolding s0 by simp
  have b': "importance_score (mark_core_arguments ?segs ?ids ! 1) = 0.95"
    using b unfolding s1 by simp
  show ?thesis using m0 m1 a a' b' by blast
qed

text \<open>
  C10. For every segment whose identifier is not in the core list, marking leaves the
  segment as it was, in all its fields; the list keeps its length and the order of its
  identifiers.
\<close>

theorem mark_core_arguments_frame:
  "length (mark_core_arguments segs core_ids) = length segs \<and>
   map id' (mark_core_arguments segs core_ids) = map id' segs \<and>
   (\<forall>i < length segs. id' (segs ! i) \<notin> set core_ids \<longrightarrow>
      mark_core_arguments segs core_ids ! i = segs ! i)"
proof (induction segs)
  case Nil
  show ?case by simp
next
  case (Cons s segs)
  have "\<And>i. i < length (s # segs) \<Longrightarrow> id' ((s # segs) ! i) \<notin> set core_ids \<Longrightarrow>
      mark_core_arguments (s # segs) core_ids ! i = (s # segs) ! i"
  proof -
    fix i assume "i < length (s # segs)" "id' ((s # segs) ! i) \<notin> set core_ids"
    then show "mark_core_arguments (s # segs) core_ids ! i = (s # segs) ! i"
      using Cons.IH by (cases i) auto
  qed
  then show ?case using Cons.IH by simp
qed

text \<open>Of two segments only the second is a core argument: the first is unchanged.\<close>

theorem mark_core_arguments_frame_witness:
  "id' ([seg_1, seg_005] ! 0) \<notin> set [ascii ''seg_005''] \<and>
   mark_core_arguments [seg_1, seg_005] [ascii ''seg_005''] ! 0 = [seg_1, seg_005] ! 0 \<and>
   is_core_argument (mark_core_arguments [seg_1, seg_005] [ascii ''seg_005''] ! 1)"
proof -
  have m0: "id' ([seg_1, seg_005] ! 0) \<notin> set [ascii ''seg_005'']"
    by (simp add: seg_1_def new_Segment_def ascii_def)
  have l: "(0::nat) < length [seg_1, seg_005]" by simp
  from mark_core_arguments_frame [of "[seg_1, seg_005]" "[ascii ''seg_005'']"] l m0
  have a: "mark_core_arguments [seg_1, seg_005] [ascii ''seg_005''] ! 0 = [seg_1, seg_005] ! 0"
    by blast
  have b: "is_core_argument (mark_core_arguments [seg_1, seg_005] [ascii ''seg_005''] ! 1)"
    by (simp add: seg_1_def seg_005_def new_Segment_def ascii_def)
  show ?thesis using m0 a b by blast
qed

subsection \<open>A failing paragraph analysis\<close>

lemma mark_core_arguments_nil: "mark_core_arguments segs [] = segs"
  by (induction segs) simp_all

text \<open>
  C8. If the paragraph-analysis call of the client raises, on the segments that topic
  extraction has returned, \<open>analyze_logic_structure\<close> returns the all-empty result
  (empty core arguments, supporting points, logic chains, paragraph relations and
  topic tree), and \<open>reconstruct\<close> returns a document all the same: the segments as
  topic extraction left them, no logic chain, the topic tree built from the segments'
  topics, and the counts of the metadata.
\<close>

theorem reconstruct_survives_failure:
  assumes "extract_topics_for_segments llm_client segs w = (segs1, w1)"
    and "analyze_paragraphs llm_client (segments_data segs1) w1 = (Inl e, w2)"
  shows "analyze_logic_structure llm_client segs1 w1 = (empty_result, w2) \<and>
         reconstruct llm_client segs w =
           (\<lparr>source_file = [], segments = segs1, logic_chains = [],
             topic_tree = build_topic_tree segs1 [],
             metadata = \<lparr>core_arguments_count = 0, logic_chains_count = 0,
                         total_topics = length (remdups (concat (map topics segs1)))\<rparr>\<rparr>, w2)"
proof -
  have a: "analyze_logic_structure llm_client segs1 w1 = (empty_result, w2)"
    using assms(2) by (simp add: analyze_logic_structure_def)
  have b: "build_logic_chains empty_result = []"
    by (simp add: build_logic_chains_def empty_result_def get_def)
  have c: "get (key_core_arguments empty_result) [] = []"
    "get (key_topic_tree empty_result) [] = []"
    by (simp_all add: empty_result_def get_def)
  show ?thesis
    using a by (simp add: reconstruct_def assms(1) b c mark_core_arguments_nil)
qed

text \<open>
  The client whose analysis raises, on the one segment \<open>seg_1\<close>: the document has the
  segment with its extracted topic and the topic tree of that one topic.
\<close>

theorem reconstruct_survives_failure_witness:
  "reconstruct failing_client [seg_1] () =
     (\<lparr>source_file = [], segments = [seg_1\<lparr>topics := [ascii ''topic'']\<rparr>], logic_chains = [],
       topic_tree =
         [(ascii ''main_topic'', JStr [0x6587, 0x6863, 0x4E3B, 0x9898]),
          (ascii ''subtopics'',
           JList [JDict [(ascii ''name'', JStr (ascii ''topic'')),
                         (ascii ''segments'', JList [JStr (ascii ''seg_1'')])]])],
       metadata = \<lparr>core_arguments_count = 0, logic_chains_count = 0, total_topics = 1\<rparr>\<rparr>, ())"
proof -
  have x: "extract_topics_for_segments failing_client [seg_1] () =
             ([seg_1\<lparr>topics := [ascii ''topic'']\<rparr>], ())"
    by code_simp
  have y: "analyze_paragraphs failing_client (segments_data [seg_1\<lparr>topics := [ascii ''topic'']\<rparr>]) ()
             = (Inl (Exception' (ascii ''timeout'')), ())"
    by (simp add: failing_client_def)
  have z: "build_topic_tree [seg_1\<lparr>topics := [ascii ''topic'']\<rparr>] [] =
     [(ascii ''main_topic'', JStr [0x6587, 0x6863, 0x4E3B, 0x9898]),
      (ascii ''subtopics'',
       JList [JDict [(ascii ''name'', JStr (ascii ''topic'')),
                     (ascii ''segments'', JList [JStr (ascii ''seg_1'')])]])]"
    by code_simp
  have t: "length (remdups (concat (map topics [seg_1\<lparr>topics := [ascii ''topic'']\<rparr>]))) = 1"
    by simp
  show ?thesis
    using reconstruct_survives_failure [OF x y] unfolding z t by simp
qed

subsection \<open>The count of core arguments\<close>

lemma extract_topics_keeps:
  "extract_topics_for_segments llm_client segs w = (segs1, w1) \<Longrightarrow>
   map id' segs1 = map id' segs \<and> map is_core_argument segs1 = map is_core_argument segs"
proof (induction segs arbitrary: w segs1 w1)
  case Nil
  then show ?case by simp
next
  case (Cons s segs)
  then show ?case
    by (auto split: if_splits prod.splits sum.splits)
qed

lemma filter_core_marked:
  "length (filter is_core_argument (mark_core_arguments segs ids)) =
   length (filter (\<lambda>s. id' s \<in> set ids \<or> is_core_argument s) segs)"
  by (induction segs) simp_all

lemma count_ids:
  assumes "distinct (map id' segs)" "distinct ids" "set ids \<subseteq> id' ` set segs"
  shows "length (filter (\<lambda>s. id' s \<in> set ids) segs) = length ids"
proof -
  have "length (filter (\<lambda>s. id' s \<in> set ids) segs) =
        length (filter (\<lambda>i. i \<in> set ids) (map id' segs))"
    by (simp add: filter_map comp_def)
  also have "\<dots> = card ({i. i \<in> set ids} \<inter> set (map id' segs))"
    using assms(1) by (rule distinct_length_filter)
  also have "{i. i \<in> set ids} \<inter> set (map id' segs) = set ids"
    using assms(3) by auto
  also have "card (set ids) = length ids"
    using assms(2) by (rule distinct_card)
  finally show ?thesis .
qed

text \<open>
  C9, as amended. In the assembled document the metadata's core-argument count is the
  length of the core-argument identifier list of the analysis result (the empty list
  when the key is absent or the analysis has failed). It equals the number of segments
  of the document whose core-argument flag is true when the identifiers of that list
  are distinct and each belongs to a segment, the segments have distinct identifiers,
  and no segment is flagged beforehand.
\<close>

theorem reconstruct_core_arguments_count:
  assumes "extract_topics_for_segments llm_client segs w = (segs1, w1)"
    and "analyze_logic_structure llm_client segs1 w1 = (analysis_result, w2)"
  shows "core_arguments_count (metadata (fst (reconstruct llm_client segs w))) =
           length (get (key_core_arguments analysis_result) []) \<and>
         (distinct (get (key_core_arguments analysis_result) []) \<and>
          set (get (key_core_arguments analysis_result) []) \<subseteq> id' ` set segs \<and>
          distinct (map id' segs) \<and> list_all (\<lambda>s. \<not> is_core_argument s) segs \<longrightarrow>
          core_arguments_count (metadata (fst (reconstruct llm_client segs w))) =
            length (get_core_arguments (fst (reconstruct llm_client segs w))))"
proof -
  let ?ids = "get (key_core_arguments analysis_result) []"
  have r: "fst (reconstruct llm_client segs w) =
       \<lparr>source_file = [], segments = mark_core_arguments segs1 ?ids,
        logic_chains = build_logic_chains analysis_result,
        topic_tree = build_topic_tree (mark_core_arguments segs1 ?ids)
                       (get (key_topic_tree analysis_result) []),
        metadata = \<lparr>core_arguments_count = length ?ids,
           logic_chains_count = length (build_logic_chains analysis_result),
           total_topics = length (remdups (concat (map topics (mark_core_arguments segs1 ?ids))))\<rparr>\<rparr>"
    by (simp add: reconstruct_def assms Let_def)
  have c1: "core_arguments_count (metadata (fst (reconstruct llm_client segs w))) = length ?ids"
    unfolding r by simp
  have g: "length (get_core_arguments (fst (reconstruct llm_client segs w))) =
        length (filter (\<lambda>s. id' s \<in> set ?ids \<or> is_core_argument s) segs1)"
    unfolding r by (simp add: get_core_arguments_def filter_core_marked)
  note k = extract_topics_keeps [OF assms(1)]
  have c2: "length (get_core_arguments (fst (reconstruct llm_client segs w))) = length ?ids"
    if h: "distinct ?ids" "set ?ids \<subseteq> id' ` set segs" "distinct (map id' segs)"
      "list_all (\<lambda>s. \<not> is_core_argument s) segs"
  proof -
    have "set (map is_core_argument segs) \<subseteq> {False}"
      using h(4) by (auto simp: list_all_iff)
    then have "set (map is_core_argument segs1) \<subseteq> {False}" using k by simp
    then have nc: "\<forall>s \<in> set segs1. \<not> is_core_argument s" by auto
    have "filter (\<lambda>s. id' s \<in> set ?ids \<or> is_core_argument s) segs1 =
          filter (\<lambda>s. id' s \<in> set ?ids) segs1"
      using nc by (intro filter_cong) auto
    moreover have "distinct (map id' segs1)" using k h(3) by simp
    moreover have "set ?ids \<subseteq> id' ` set segs1"
      using h(2) k by (metis list.set_map)
    ultimately show ?thesis using g count_ids [of segs1 ?ids] h(1) by simp
  qed
  show ?thesis using c1 c2 by auto
qed

text \<open>
  The client that reports \<open>seg_1\<close> as the core argument, on the one segment \<open>seg_1\<close>:
  the count is one, and one segment is flagged.
\<close>

theorem reconstruct_core_arguments_count_witness:
  "distinct (get (key_core_arguments (empty_result\<lparr>key_core_arguments := Some [ascii ''seg_1'']\<rparr>)) []) \<and>
   core_arguments_count (metadata (fst (reconstruct core_client [seg_1] ()))) = 1 \<and>
   core_arguments_count (metadata (fst (reconstruct core_client [seg_1] ()))) =
     length (get_core_arguments (fst (reconstruct core_client [seg_1] ())))"
proof -
  let ?res = "empty_result\<lparr>key_core_arguments := Some [ascii ''seg_1'']\<rparr>"
  have x: "extract_topics_for_segments core_client [seg_1] () = ([seg_1\<lparr>topics := []\<rparr>], ())"
    by code_simp
  have y: "analyze_logic_structure core_client [seg_1\<lparr>topics := []\<rparr>] () = (?res, ())"
    by (simp add: analyze_logic_structure_def core_client_def)
  have g: "get (key_core_arguments ?res) [] = [ascii ''seg_1'']"
    by (simp add: get_def)
  have h: "distinct (get (key_core_arguments ?res) [])"
    "set (get (key_core_arguments ?res) []) \<subseteq> id' ` set [seg_1]"
    "distinct (map id' [seg_1])" "list_all (\<lambda>s. \<not> is_core_argument s) [seg_1]"
    unfolding g by (simp_all add: seg_1_def new_Segment_def)
  from reconstruct_core_arguments_count [OF x y] h
  have "core_arguments_count (metadata (fst (reconstruct core_client [seg_1] ()))) =
          length (get (key_core_arguments ?res) []) \<and>
        core_arguments_count (metadata (fst (reconstruct core_client [seg_1] ()))) =
          length (get_core_arguments (fst (reconstruct core_client [seg_1] ())))"
    by blast
  then show ?thesis using h(1) unfolding g by simp
qed

text \<open>
  The claim as stated fails when the analysis reports an identifier that no segment
  has: the count of the metadata is one and no segment of the document is flagged.
\<close>

theorem reconstruct_core_arguments_count_counterexample:
  "core_arguments_count (metadata (fst (reconstruct ghost_client [seg_1] ()))) = 1 \<and>
   length (get_core_arguments (fst (reconstruct ghost_client [seg_1] ()))) = 0"
  by code_simp

end
